theory Spec2Isabelle
  imports Main "HOL-Library.AList"
begin

section \<open>Data model\<close>

text \<open>
  A naive Python \<open>datetime\<close> is a count of microseconds from the first instant of the
  proleptic Gregorian calendar; a \<open>timedelta\<close> is a signed count of microseconds and a
  \<open>date\<close> a count of whole days. The finite range of \<open>datetime\<close> (years 1 to 9999)
  is not modelled: every timestamp that occurs is taken to be representable.
\<close>

type_synonym datetime = int
type_synonym date = int

definition timedelta :: "int \<Rightarrow> int \<Rightarrow> int \<Rightarrow> int" where
  "timedelta days hours minutes = ((days * 24 + hours) * 60 + minutes) * 60000000"

definition date_of :: "datetime \<Rightarrow> date" where
  "date_of t = t div 86400000000"

text \<open>
  The class \<open>SentinelOrbit\<close> lives in the products module, which is not among the
  sources. The code under study reads four attributes of such an object and its
  \<open>date\<close> property; construction from a name is the parameter \<open>SO\<close> of every function
  that parses names.
\<close>

record SentinelOrbit =
  filename :: string
  start_time :: datetime
  stop_time :: datetime
  created_time :: datetime

text \<open>
  Modelled from the spec: the \<open>date\<close> property of \<open>SentinelOrbit\<close> (products module, not
  among the sources) is the validity-start date at day granularity.
\<close>

definition date :: "SentinelOrbit \<Rightarrow> date" where
  "date so = date_of (start_time so)"

datatype error =
    ValidityError
  | IndexError
  | ValueError
  | TypeError
  | AssertionError
  | HTTPError

section \<open>scihubclient: the interval-covering selector\<close>

text \<open>
  \<open>list.sort(key=k, reverse=True)\<close> is a stable sort into descending order: the list is
  reversed, sorted stably into ascending order and reversed again.
\<close>

definition sort_reverse :: "('a \<Rightarrow> 'k::linorder) \<Rightarrow> 'a list \<Rightarrow> 'a list" where
  "sort_reverse key xs = rev (sort_key key (rev xs))"

definition lastval_cover :: "datetime \<Rightarrow> datetime \<Rightarrow> SentinelOrbit list \<Rightarrow> error + string" where
  "lastval_cover t0 t1 data =
     (let candidates = filter (\<lambda>item. start_time item \<le> t0 \<and> stop_time item \<ge> t1) data
      in if candidates = [] then Inl ValidityError
         else Inr (filename (hd (sort_reverse created_time candidates))))"

section \<open>download: deduplication and the precise-window filter\<close>

text \<open>\<open>link.split("/")[-1]\<close>: what follows the last slash, the whole string if there is none.\<close>

definition split_last :: "string \<Rightarrow> string" where
  "split_last link = rev (takeWhile (\<lambda>c. c \<noteq> CHR ''/'') (rev link))"

text \<open>The loop of \<open>_dedupe_links\<close>: \<open>orb1\<close> is fixed before the loop and never reassigned.\<close>

primrec dedupe_loop :: "(string \<Rightarrow> SentinelOrbit) \<Rightarrow> SentinelOrbit \<Rightarrow> string list \<Rightarrow> string list \<Rightarrow> string list" where
  "dedupe_loop SO orb1 out [] = out"
| "dedupe_loop SO orb1 out (link # links) =
     (if date (SO (split_last link)) \<noteq> date orb1
      then dedupe_loop SO orb1 (out @ [link]) links
      else dedupe_loop SO orb1 out links)"

definition dedupe_links :: "(string \<Rightarrow> SentinelOrbit) \<Rightarrow> string list \<Rightarrow> error + string list" where
  "dedupe_links SO links =
     (case links of
        [] \<Rightarrow> Inl IndexError
      | link0 # rest \<Rightarrow> Inr (dedupe_loop SO (SO (split_last link0)) [link0] rest))"

text \<open>
  The deduplicator as the specification words it: each candidate is compared with the
  candidate kept last.
\<close>

primrec dedupe_last_kept_loop :: "(string \<Rightarrow> SentinelOrbit) \<Rightarrow> string \<Rightarrow> string list \<Rightarrow> string list" where
  "dedupe_last_kept_loop SO kept [] = []"
| "dedupe_last_kept_loop SO kept (link # links) =
     (if date (SO (split_last link)) \<noteq> date (SO (split_last kept))
      then link # dedupe_last_kept_loop SO link links
      else dedupe_last_kept_loop SO kept links)"

definition dedupe_last_kept :: "(string \<Rightarrow> SentinelOrbit) \<Rightarrow> string list \<Rightarrow> error + string list" where
  "dedupe_last_kept SO links =
     (case links of
        [] \<Rightarrow> Inl IndexError
      | link0 # rest \<Rightarrow> Inr (link0 # dedupe_last_kept_loop SO link0 rest))"

primrec pick_precise_loop :: "(string \<Rightarrow> SentinelOrbit) \<Rightarrow> datetime \<Rightarrow> string list \<Rightarrow> string list \<Rightarrow> string list" where
  "pick_precise_loop SO sent_date out [] = out"
| "pick_precise_loop SO sent_date out (link # links) =
     (let so = SO (split_last link)
      in if date_of (start_time so) = date_of (sent_date - timedelta 1 0 0)
            \<and> date_of (stop_time so) = date_of (sent_date + timedelta 1 0 0)
         then pick_precise_loop SO sent_date (out @ [link]) links
         else pick_precise_loop SO sent_date out links)"

definition pick_precise_file :: "(string \<Rightarrow> SentinelOrbit) \<Rightarrow> string list \<Rightarrow> datetime \<Rightarrow> string list" where
  "pick_precise_file SO links sent_date = pick_precise_loop SO sent_date [] links"

section \<open>download: listing, fallback between the tiers and saving\<close>

text \<open>
  The collaborators outside the sources: \<open>requests.get\<close>, the \<open>strftime\<close> of the
  pattern \<open>%Y/%m/%d\<close> and the link finder of the parsing module. Transport failures of
  \<open>requests.get\<close> are not modelled; an answer always arrives and carries a status code.
\<close>

record response =
  status_code :: nat
  text_of :: string
  content :: string

record ext =
  requests_get :: "string \<Rightarrow> response"
  strftime :: "datetime \<Rightarrow> string"
  eof_links :: "string \<Rightarrow> string list"

definition PRECISE_ORBIT :: string where
  "PRECISE_ORBIT = ''POEORB''"

definition RESTITUTED_ORBIT :: string where
  "RESTITUTED_ORBIT = ''RESORB''"

definition BASE_URL :: "string \<Rightarrow> string \<Rightarrow> string" where
  "BASE_URL orbit_type dt = ''http://aux.sentinel1.eo.esa.int/'' @ orbit_type @ ''/'' @ dt @ ''/''"

text \<open>\<open>response.raise_for_status()\<close> raises for the status codes 400 to 599.\<close>

definition raises_for_status :: "response \<Rightarrow> bool" where
  "raises_for_status r \<longleftrightarrow> 400 \<le> status_code r \<and> status_code r < 600"

definition startswith :: "string \<Rightarrow> string \<Rightarrow> bool" where
  "startswith s p \<longleftrightarrow> take (length p) s = p"

text \<open>
  The comprehension \<open>[url + link for link in parser.eof_links if link.startswith(mission)]\<close>;
  \<open>mission\<close> is \<open>None\<close> when the caller gave no missions, and \<open>startswith(None)\<close> raises as
  soon as there is a link to test.
\<close>

definition mission_links :: "string \<Rightarrow> string list \<Rightarrow> string option \<Rightarrow> error + string list" where
  "mission_links url found mission =
     (case mission of
        None \<Rightarrow> (if found = [] then Inr [] else Inl TypeError)
      | Some m \<Rightarrow> Inr (map (\<lambda>link. url @ link) (filter (\<lambda>link. startswith link m) found)))"

function eof_list :: "ext \<Rightarrow> datetime \<Rightarrow> string option \<Rightarrow> string \<Rightarrow> error + (string list \<times> string)" where
  "eof_list ex start_dt mission orbit_type =
     (let validity_creation_diff =
            (if orbit_type = PRECISE_ORBIT then timedelta 20 12 0 else timedelta 0 4 0);
          search_dt = start_dt + validity_creation_diff;
          url = BASE_URL orbit_type (strftime ex search_dt);
          response = requests_get ex url
      in if status_code response = 404 then
           (if orbit_type = PRECISE_ORBIT
            then eof_list ex start_dt mission RESTITUTED_ORBIT
            else Inl ValueError)
         else if raises_for_status response then Inl HTTPError
         else (case mission_links url (eof_links ex (text_of response)) mission of
                 Inl e \<Rightarrow> Inl e
               | Inr links \<Rightarrow>
                   if length links < 1 then
                     (if orbit_type = PRECISE_ORBIT
                      then eof_list ex start_dt mission RESTITUTED_ORBIT
                      else Inl ValueError)
                   else Inr (links, orbit_type)))"
  by pat_completeness auto
termination
  by (relation "measure (\<lambda>(ex, start_dt, mission, orbit_type).
        if orbit_type = PRECISE_ORBIT then 1 else 0)")
     (auto simp: PRECISE_ORBIT_def RESTITUTED_ORBIT_def)

declare eof_list.simps [simp del]

text \<open>\<open>os.path.join\<close> of two components, on a POSIX system.\<close>

definition path_join :: "string \<Rightarrow> string \<Rightarrow> string" where
  "path_join a b =
     (if startswith b ''/'' then b
      else if a = [] \<or> last a = CHR ''/'' then a @ b
      else a @ ''/'' @ b)"

text \<open>
  The file system is a map from path to content, and \<open>os.path.isfile\<close> asks whether the
  path is bound. The saving loop returns at the first file that is already there.
\<close>

type_synonym fs = "string \<Rightarrow> string option"

primrec save_links :: "ext \<Rightarrow> string \<Rightarrow> fs \<Rightarrow> string list \<Rightarrow> string list \<Rightarrow> error + (string list option \<times> fs)" where
  "save_links ex save_dir files saved_files [] = Inr (Some saved_files, files)"
| "save_links ex save_dir files saved_files (link # links) =
     (let fname = path_join save_dir (split_last link)
      in if files fname \<noteq> None then Inr (Some [fname], files)
         else let response = requests_get ex link
              in if raises_for_status response then Inl HTTPError
                 else save_links ex save_dir (files(fname \<mapsto> content response))
                        (saved_files @ [fname]) links)"

text \<open>
  \<open>_download_and_write\<close>: only \<open>ValueError\<close> is caught; the function then returns without a
  value, which is \<open>None\<close>.
\<close>

definition download_and_write :: "ext \<Rightarrow> (string \<Rightarrow> SentinelOrbit) \<Rightarrow> fs \<Rightarrow> string option \<Rightarrow> datetime \<Rightarrow> string \<Rightarrow> error + (string list option \<times> fs)" where
  "download_and_write ex SO files mission dt save_dir =
     (case eof_list ex dt mission PRECISE_ORBIT of
        Inl e \<Rightarrow> (if e = ValueError then Inr (None, files) else Inl e)
      | Inr (links, orbit_type) \<Rightarrow>
          (case dedupe_links SO links of
             Inl e \<Rightarrow> Inl e
           | Inr cur_links \<Rightarrow>
               save_links ex save_dir files []
                 (if orbit_type = PRECISE_ORBIT then pick_precise_file SO cur_links dt
                  else cur_links)))"

text \<open>
  The collecting loop of \<open>download_eofs\<close>, over the values the pooled calls of
  \<open>_download_and_write\<close> returned, in the order of submission: \<open>filenames.extend(None)\<close>
  raises.
\<close>

primrec collect_filenames :: "string list \<Rightarrow> string list option list \<Rightarrow> error + string list" where
  "collect_filenames filenames [] = Inr filenames"
| "collect_filenames filenames (cur_filenames # results) =
     (case cur_filenames of
        None \<Rightarrow> Inl TypeError
      | Some names \<Rightarrow> collect_filenames (filenames @ names) results)"

section \<open>scihubclient: resolution of a batch\<close>

text \<open>
  A product of the catalogue is the dictionary the API returns for it; the code reads its
  \<open>identifier\<close> only. The answer to a query is an ordered dictionary from product key to
  product. The API itself is a parameter: product type, platform serial identifier, upper
  bound of the begin position and lower bound of the end position; it may fail.
\<close>

record product =
  "identifier" :: string

type_synonym products = "(string \<times> product) list"

type_synonym api = "string \<Rightarrow> string \<Rightarrow> datetime \<Rightarrow> datetime \<Rightarrow> error + products"

definition get_validity_info :: "(string \<Rightarrow> SentinelOrbit) \<Rightarrow> string list \<Rightarrow> SentinelOrbit list" where
  "get_validity_info SO prods = map SO prods"

definition query_orbit :: "api \<Rightarrow> datetime \<Rightarrow> datetime \<Rightarrow> string \<Rightarrow> string \<Rightarrow> error + products" where
  "query_orbit query t0 t1 satellite_id product_type =
     (if satellite_id \<notin> {''S1A'', ''S1B''} then Inl AssertionError
      else if product_type \<notin> {''AUX_POEORB'', ''AUX_RESORB''} then Inl AssertionError
      else query product_type (tl satellite_id) t1 t0)"

definition select_orbit :: "(string \<Rightarrow> SentinelOrbit) \<Rightarrow> products \<Rightarrow> datetime \<Rightarrow> datetime \<Rightarrow> error + products" where
  "select_orbit SO prods t0 t1 =
     (if prods = [] then Inr []
      else let orbit_products = map (\<lambda>p. identifier p) (map snd prods);
               validity_info = get_validity_info SO orbit_products
           in case lastval_cover t0 t1 validity_info of
                Inl e \<Rightarrow> Inl e
              | Inr product_id \<Rightarrow> Inr (filter (\<lambda>(k, v). identifier v = product_id) prods))"

text \<open>\<open>query.update(result)\<close> on insertion-ordered dictionaries.\<close>

definition dict_update :: "products \<Rightarrow> products \<Rightarrow> products" where
  "dict_update query result = foldl (\<lambda>q (k, v). AList.update k v q) query result"

text \<open>
  \<open>self._select_orbit(products, dt, dt + timedelta(minutes=1)) if products else None\<close>,
  and the truth value of its result.
\<close>

definition select_if_products :: "(string \<Rightarrow> SentinelOrbit) \<Rightarrow> products \<Rightarrow> datetime \<Rightarrow> error + products option" where
  "select_if_products SO prods dt =
     (if prods \<noteq> [] then
        (case select_orbit SO prods dt (dt + timedelta 0 0 1) of
           Inl e \<Rightarrow> Inl e
         | Inr r \<Rightarrow> Inr (Some r))
      else Inr None)"

fun truthy :: "products option \<Rightarrow> bool" where
  "truthy None = False"
| "truthy (Some r) = (r \<noteq> [])"

type_synonym request = "string \<times> datetime"

text \<open>One iteration of the loop of \<open>query_orbit_by_dt\<close> over the state \<open>(remaining_dates, query)\<close>.\<close>

definition orbit_step :: "api \<Rightarrow> (string \<Rightarrow> SentinelOrbit) \<Rightarrow> string \<Rightarrow> int \<Rightarrow> int \<Rightarrow> request list \<times> products \<Rightarrow> request \<Rightarrow> error + (request list \<times> products)" where
  "orbit_step query_api SO orbit_type t0_margin t1_margin st req =
     (case (st, req) of ((remaining_dates, query), (mission, dt)) \<Rightarrow>
       (case (if orbit_type = ''precise'' then
                (case query_orbit query_api (dt - t0_margin) (dt + t1_margin) mission ''AUX_POEORB'' of
                   Inl e \<Rightarrow> Inl e
                 | Inr prods \<Rightarrow> select_if_products SO prods dt)
              else Inr None) of
          Inl e \<Rightarrow> Inl e
        | Inr result \<Rightarrow>
            if truthy result then Inr (remaining_dates, dict_update query (the result))
            else
              (case query_orbit query_api (dt - timedelta 0 1 0) (dt + timedelta 0 1 0) mission ''AUX_RESORB'' of
                 Inl e \<Rightarrow> Inl e
               | Inr prods \<Rightarrow>
                   (case select_if_products SO prods dt of
                      Inl e \<Rightarrow> Inl e
                    | Inr result \<Rightarrow>
                        if truthy result then Inr (remaining_dates, dict_update query (the result))
                        else Inr (remaining_dates @ [(mission, dt)], query)))))"

primrec orbit_loop :: "api \<Rightarrow> (string \<Rightarrow> SentinelOrbit) \<Rightarrow> string \<Rightarrow> int \<Rightarrow> int \<Rightarrow> request list \<Rightarrow> request list \<times> products \<Rightarrow> error + (request list \<times> products)" where
  "orbit_loop query_api SO orbit_type t0_margin t1_margin [] st = Inr st"
| "orbit_loop query_api SO orbit_type t0_margin t1_margin (req # reqs) st =
     (case orbit_step query_api SO orbit_type t0_margin t1_margin st req of
        Inl e \<Rightarrow> Inl e
      | Inr st' \<Rightarrow> orbit_loop query_api SO orbit_type t0_margin t1_margin reqs st')"

text \<open>
  The value of \<open>query_orbit_by_dt\<close> is the dictionary \<open>query\<close> alone. The second component
  here is what it logs at warning level: one record carrying \<open>remaining_dates\<close> when that
  list is not empty.
\<close>

definition query_orbit_by_dt :: "api \<Rightarrow> (string \<Rightarrow> SentinelOrbit) \<Rightarrow> string list \<Rightarrow> datetime list \<Rightarrow> string \<Rightarrow> int \<Rightarrow> int \<Rightarrow> error + (products \<times> request list list)" where
  "query_orbit_by_dt query_api SO missions orbit_dts orbit_type t0_margin t1_margin =
     (case orbit_loop query_api SO orbit_type t0_margin t1_margin (zip missions orbit_dts) ([], []) of
        Inl e \<Rightarrow> Inl e
      | Inr (remaining_dates, query) \<Rightarrow>
          Inr (query, if remaining_dates \<noteq> [] then [remaining_dates] else []))"

section \<open>Example data\<close>

text \<open>
  Orbit files with the times their names carry, in microseconds; the validity window of
  \<open>poe_0310\<close> and \<open>poe_0315\<close> is 2021-02-25T22:59:42 to 2021-02-27T00:59:42.
\<close>

definition poe_0224 :: SentinelOrbit where
  "poe_0224 = \<lparr>filename = ''S1A_OPER_AUX_POEORB_OPOD_20210317T121400_V20210224T225942_20210226T005942.EOF'',
     start_time = 63749804382000000, stop_time = 63749897982000000, created_time = 63751580040000000\<rparr>"

definition poe_0310 :: SentinelOrbit where
  "poe_0310 = \<lparr>filename = ''S1A_OPER_AUX_POEORB_OPOD_20210310T121945_V20210225T225942_20210227T005942.EOF'',
     start_time = 63749890782000000, stop_time = 63749984382000000, created_time = 63750975585000000\<rparr>"

definition poe_0315 :: SentinelOrbit where
  "poe_0315 = \<lparr>filename = ''S1A_OPER_AUX_POEORB_OPOD_20210315T121945_V20210225T225942_20210227T005942.EOF'',
     start_time = 63749890782000000, stop_time = 63749984382000000, created_time = 63751407585000000\<rparr>"

definition poe_0315_b :: SentinelOrbit where
  "poe_0315_b = \<lparr>filename = ''S1B_OPER_AUX_POEORB_OPOD_20210315T121945_V20210225T225942_20210227T005942.EOF'',
     start_time = 63749890782000000, stop_time = 63749984382000000, created_time = 63751407585000000\<rparr>"

definition res_partial :: SentinelOrbit where
  "res_partial = \<lparr>filename = ''S1A_OPER_AUX_RESORB_OPOD_20210226T031500_V20210225T210000_20210226T000030.EOF'',
     start_time = 63749883600000000, stop_time = 63749894430000000, created_time = 63749906100000000\<rparr>"

definition res_0226 :: SentinelOrbit where
  "res_0226 = \<lparr>filename = ''S1A_OPER_AUX_RESORB_OPOD_20210226T040000_V20210225T225942_20210226T024942.EOF'',
     start_time = 63749890782000000, stop_time = 63749904582000000, created_time = 63749908800000000\<rparr>"

definition res_0227 :: SentinelOrbit where
  "res_0227 = \<lparr>filename = ''S1A_OPER_AUX_RESORB_OPOD_20210227T030000_V20210226T215942_20210227T014942.EOF'',
     start_time = 63749973582000000, stop_time = 63749987382000000, created_time = 63749991600000000\<rparr>"

definition example_orbits :: "SentinelOrbit list" where
  "example_orbits = [poe_0224, poe_0310, poe_0315, poe_0315_b, res_partial, res_0226, res_0227]"

text \<open>A reading of names that knows the example files; any other name is read as instant 0.\<close>

definition example_SO :: "string \<Rightarrow> SentinelOrbit" where
  "example_SO name =
     (case find (\<lambda>so. filename so = name) example_orbits of
        Some so \<Rightarrow> so
      | None \<Rightarrow> \<lparr>filename = name, start_time = 0, stop_time = 0, created_time = 0\<rparr>)"

text \<open>2021-02-26T00:00:00 and 2021-02-26T23:59:30.\<close>

definition dt_0226 :: datetime where
  "dt_0226 = 63749894400000000"

definition dt_0226_late :: datetime where
  "dt_0226_late = 63749980770000000"

definition example_page :: string where
  "example_page = ''http://aux.sentinel1.eo.esa.int/POEORB/2021/03/18/''"

text \<open>
  Stand-ins for the collaborators of the download module: the precise listing of
  2021-03-18 and the restituted listing of 2021-02-26, each present with the given file
  names or answering 404; any other address answers 200 with the address as content.
\<close>

definition page :: "string \<Rightarrow> string list option \<Rightarrow> response" where
  "page tag names =
     (case names of
        None \<Rightarrow> \<lparr>status_code = 404, text_of = [], content = []\<rparr>
      | Some l \<Rightarrow> \<lparr>status_code = 200, text_of = tag, content = []\<rparr>)"

definition stub_ext :: "string list option \<Rightarrow> string list option \<Rightarrow> ext" where
  "stub_ext poe res =
     \<lparr>requests_get = (\<lambda>url.
          if url = BASE_URL PRECISE_ORBIT ''2021/03/18'' then page PRECISE_ORBIT poe
          else if url = BASE_URL RESTITUTED_ORBIT ''2021/02/26'' then page RESTITUTED_ORBIT res
          else \<lparr>status_code = 200, text_of = [], content = url\<rparr>),
      strftime = (\<lambda>t. if date_of t = 737866 then ''2021/03/18'' else ''2021/02/26''),
      eof_links = (\<lambda>text. if text = PRECISE_ORBIT then (case poe of Some l \<Rightarrow> l | None \<Rightarrow> [])
                          else if text = RESTITUTED_ORBIT then (case res of Some l \<Rightarrow> l | None \<Rightarrow> [])
                          else [])\<rparr>"

definition res_page :: string where
  "res_page = ''http://aux.sentinel1.eo.esa.int/RESORB/2021/02/26/''"

definition ext_precise :: ext where
  "ext_precise = stub_ext (Some [filename poe_0224, filename poe_0315_b, filename poe_0310, filename poe_0315]) None"

definition ext_restituted :: ext where
  "ext_restituted = stub_ext None (Some [filename res_0226])"

definition ext_nothing :: ext where
  "ext_nothing = stub_ext None None"

section \<open>The selector\<close>

lemma last_filter_keep: "xs \<noteq> [] \<Longrightarrow> P (last xs) \<Longrightarrow> last (filter P xs) = last xs"
proof (induction xs)
  case Nil then show ?case by simp
next
  case (Cons a xs)
  show ?case
  proof (cases "xs = []")
    case True then show ?thesis using Cons.prems by simp
  next
    case False
    then have "P (last xs)" using Cons.prems by simp
    then have "last (filter P xs) = last xs" using Cons.IH False by simp
    moreover have "filter P xs \<noteq> []"
      using False \<open>P (last xs)\<close> last_in_set [OF False] by (auto simp: filter_empty_conv)
    ultimately show ?thesis using False by simp
  qed
qed

lemma last_sort_key_max:
  assumes "ys \<noteq> []"
  shows "\<forall>x\<in>set ys. f x \<le> f (last (sort_key f ys))"
proof -
  let ?S = "sort_key f ys"
  have ne: "?S \<noteq> []" using assms by (metis length_sort list.size(3) length_0_conv)
  have srt: "sorted (map f ?S)" by simp
  have "\<forall>x\<in>set ?S. f x \<le> f (last ?S)"
  proof
    fix x assume "x \<in> set ?S"
    then obtain i where i: "i < length ?S" "?S ! i = x" unfolding in_set_conv_nth by blast
    have "map f ?S ! i \<le> map f ?S ! (length ?S - 1)"
      using srt i ne by (intro sorted_nth_mono) auto
    then show "f x \<le> f (last ?S)" using i ne by (simp add: last_conv_nth)
  qed
  then show ?thesis by simp
qed

lemma last_sort_key_stable:
  assumes "ys \<noteq> []"
  shows "last (sort_key f ys) = last (filter (\<lambda>x. f x = f (last (sort_key f ys))) ys)"
proof -
  let ?S = "sort_key f ys"
  let ?k = "f (last ?S)"
  have ne: "?S \<noteq> []" using assms by (metis length_sort list.size(3) length_0_conv)
  have "last ?S = last (filter (\<lambda>x. f x = ?k) ?S)"
    using ne by (simp add: last_filter_keep)
  also have "filter (\<lambda>x. f x = ?k) ?S = filter (\<lambda>x. f x = ?k) ys"
    by (rule sort_key_stable)
  finally show ?thesis .
qed

lemma hd_sort_reverse:
  assumes "xs = pre @ c # post"
    and "\<forall>x\<in>set pre. key x < key c"
    and "\<forall>x\<in>set post. key x \<le> key c"
  shows "hd (sort_reverse key xs) = c"
proof -
  let ?ys = "rev xs"
  let ?S = "sort_key key ?ys"
  let ?c' = "last ?S"
  have ne: "?ys \<noteq> []" using assms(1) by simp
  have Sne: "?S \<noteq> []" using ne by (metis length_sort list.size(3) length_0_conv)
  have mx: "\<forall>x\<in>set ?ys. key x \<le> key ?c'" using last_sort_key_max [OF ne] .
  have "?c' \<in> set ?S" using Sne by (rule last_in_set)
  then have mem: "?c' \<in> set xs" by simp
  have "key c \<le> key ?c'" using mx assms(1) by simp
  moreover have "key ?c' \<le> key c" using mem assms by auto
  ultimately have k: "key ?c' = key c" by simp
  have "?c' = last (filter (\<lambda>x. key x = key ?c') ?ys)" using last_sort_key_stable [OF ne] .
  also have "\<dots> = last (rev (filter (\<lambda>x. key x = key c) xs))" by (simp add: k rev_filter)
  also have "filter (\<lambda>x. key x = key c) xs = c # filter (\<lambda>x. key x = key c) post"
    using assms(1,2) by (auto simp: filter_empty_conv)
  finally have "?c' = c" by simp
  then show ?thesis using Sne by (simp add: sort_reverse_def hd_rev)
qed

lemma first_max_split:
  fixes key :: "'a \<Rightarrow> 'k::linorder"
  assumes "xs \<noteq> []"
  shows "\<exists>pre c post. xs = pre @ c # post \<and> (\<forall>x\<in>set pre. key x < key c) \<and> (\<forall>x\<in>set post. key x \<le> key c)"
  using assms
proof (induction xs)
  case Nil then show ?case by simp
next
  case (Cons a xs)
  show ?case
  proof (cases "xs = []")
    case True
    then have "a # xs = [] @ a # []" by simp
    then show ?thesis by (metis empty_iff empty_set True)
  next
    case False
    then obtain pre c post where s: "xs = pre @ c # post" "\<forall>x\<in>set pre. key x < key c" "\<forall>x\<in>set post. key x \<le> key c"
      using Cons.IH by blast
    show ?thesis
    proof (cases "key a < key c")
      case True
      have "a # xs = (a # pre) @ c # post" using s by simp
      moreover have "\<forall>x\<in>set (a # pre). key x < key c" using s True by simp
      ultimately show ?thesis using s(3) by blast
    next
      case False
      have "a # xs = [] @ a # xs" by simp
      moreover have "\<forall>x\<in>set xs. key x \<le> key a" using s False by auto
      ultimately show ?thesis by (metis empty_iff empty_set)
    qed
  qed
qed

lemma lastval_cover_candidates:
  assumes "filter (\<lambda>item. start_time item \<le> t0 \<and> stop_time item \<ge> t1) data = pre @ c # post"
    and "\<forall>x\<in>set pre. created_time x < created_time c"
    and "\<forall>x\<in>set post. created_time x \<le> created_time c"
  shows "lastval_cover t0 t1 data = Inr (filename c)"
  using hd_sort_reverse [OF refl assms(2,3)] assms(1)
  by (simp add: lastval_cover_def)

lemma lastval_cover_none:
  "lastval_cover t0 t1 data = Inl ValidityError \<longleftrightarrow>
     \<not> (\<exists>c\<in>set data. start_time c \<le> t0 \<and> t1 \<le> stop_time c)"
  by (auto simp: lastval_cover_def Let_def filter_empty_conv)

lemma lastval_cover_some:
  assumes "\<exists>x\<in>set data. start_time x \<le> t0 \<and> t1 \<le> stop_time x"
  shows "\<exists>c\<in>set data. start_time c \<le> t0 \<and> t1 \<le> stop_time c
           \<and> (\<forall>c'\<in>set data. start_time c' \<le> t0 \<and> t1 \<le> stop_time c'
                  \<longrightarrow> created_time c' \<le> created_time c)
           \<and> lastval_cover t0 t1 data = Inr (filename c)"
proof -
  let ?P = "\<lambda>item. start_time item \<le> t0 \<and> stop_time item \<ge> t1"
  have "filter ?P data \<noteq> []" using assms by (auto simp: filter_empty_conv)
  then obtain pre c post where s: "filter ?P data = pre @ c # post"
      "\<forall>x\<in>set pre. created_time x < created_time c"
      "\<forall>x\<in>set post. created_time x \<le> created_time c"
    using first_max_split [of "filter ?P data" created_time] by blast
  have r: "lastval_cover t0 t1 data = Inr (filename c)"
    using lastval_cover_candidates [OF s] .
  have "c \<in> set (filter ?P data)" using s(1) by simp
  then have c: "c \<in> set data" "?P c" by auto
  have "\<forall>c'\<in>set (filter ?P data). created_time c' \<le> created_time c"
    unfolding s(1) using s(2,3) by auto
  then have "\<forall>c'\<in>set data. ?P c' \<longrightarrow> created_time c' \<le> created_time c" by simp
  then show ?thesis using c r by blast
qed

text \<open>
  Claim C1. Whenever some candidate of the input fully covers the interval from \<open>t0\<close> to
  \<open>t1\<close> (validity start at or before \<open>t0\<close>, validity stop at or after \<open>t1\<close>), the selector
  returns the file name of a candidate of the input that fully covers it; it raises
  \<open>ValidityError\<close> exactly when no candidate fully covers the interval.
\<close>

theorem lastval_cover_covering:
  "((\<exists>x\<in>set data. start_time x \<le> t0 \<and> t1 \<le> stop_time x) \<longrightarrow>
      (\<exists>c\<in>set data. start_time c \<le> t0 \<and> t1 \<le> stop_time c
          \<and> lastval_cover t0 t1 data = Inr (filename c)))
   \<and> (lastval_cover t0 t1 data = Inl ValidityError \<longleftrightarrow>
        \<not> (\<exists>x\<in>set data. start_time x \<le> t0 \<and> t1 \<le> stop_time x))"
  using lastval_cover_some [of data t0 t1] lastval_cover_none [of t0 t1 data] by blast

theorem lastval_cover_covering_witness:
  "(\<exists>x\<in>set [res_partial, poe_0310]. start_time x \<le> dt_0226 \<and> dt_0226 + timedelta 0 0 1 \<le> stop_time x)
   \<and> lastval_cover dt_0226 (dt_0226 + timedelta 0 0 1) [res_partial, poe_0310] = Inr (filename poe_0310)
   \<and> lastval_cover dt_0226 (dt_0226 + timedelta 0 0 1) [res_partial] = Inl ValidityError"
  using lastval_cover_covering [of "[res_partial, poe_0310]" dt_0226 "dt_0226 + timedelta 0 0 1"]
    lastval_cover_covering [of "[res_partial]" dt_0226 "dt_0226 + timedelta 0 0 1"]
  by (simp add: dt_0226_def timedelta_def res_partial_def poe_0310_def)

text \<open>
  Claim C6. Among the fully covering candidates the selector returns one whose creation time
  is at least that of every other covering candidate; given two covering candidates with
  different creation times, in either order, it returns the later one.
\<close>

theorem lastval_cover_latest_created:
  "((\<exists>x\<in>set data. start_time x \<le> t0 \<and> t1 \<le> stop_time x) \<longrightarrow>
      (\<exists>c\<in>set data. start_time c \<le> t0 \<and> t1 \<le> stop_time c
          \<and> (\<forall>c'\<in>set data. start_time c' \<le> t0 \<and> t1 \<le> stop_time c'
                 \<longrightarrow> created_time c' \<le> created_time c)
          \<and> lastval_cover t0 t1 data = Inr (filename c)))
   \<and> (start_time a \<le> t0 \<and> t1 \<le> stop_time a \<and> start_time b \<le> t0 \<and> t1 \<le> stop_time b
        \<and> created_time a < created_time b \<longrightarrow>
        lastval_cover t0 t1 [a, b] = Inr (filename b) \<and> lastval_cover t0 t1 [b, a] = Inr (filename b))"
proof (intro conjI impI)
  assume "\<exists>x\<in>set data. start_time x \<le> t0 \<and> t1 \<le> stop_time x"
  then show "\<exists>c\<in>set data. start_time c \<le> t0 \<and> t1 \<le> stop_time c
          \<and> (\<forall>c'\<in>set data. start_time c' \<le> t0 \<and> t1 \<le> stop_time c'
                 \<longrightarrow> created_time c' \<le> created_time c)
          \<and> lastval_cover t0 t1 data = Inr (filename c)"
    by (rule lastval_cover_some)
next
  assume h: "start_time a \<le> t0 \<and> t1 \<le> stop_time a \<and> start_time b \<le> t0 \<and> t1 \<le> stop_time b
        \<and> created_time a < created_time b"
  show "lastval_cover t0 t1 [a, b] = Inr (filename b)"
    using h by (intro lastval_cover_candidates [where pre = "[a]" and post = "[]"]) auto
  show "lastval_cover t0 t1 [b, a] = Inr (filename b)"
    using h by (intro lastval_cover_candidates [where pre = "[]" and post = "[a]"]) auto
qed

theorem lastval_cover_latest_created_witness:
  "(\<exists>x\<in>set [poe_0310, poe_0315]. start_time x \<le> dt_0226 \<and> dt_0226 + timedelta 0 0 1 \<le> stop_time x)
   \<and> created_time poe_0310 < created_time poe_0315
   \<and> lastval_cover dt_0226 (dt_0226 + timedelta 0 0 1) [poe_0310, poe_0315] = Inr (filename poe_0315)
   \<and> lastval_cover dt_0226 (dt_0226 + timedelta 0 0 1) [poe_0315, poe_0310] = Inr (filename poe_0315)"
  using lastval_cover_latest_created [of "[poe_0310, poe_0315]" dt_0226 "dt_0226 + timedelta 0 0 1" poe_0310 poe_0315]
  by (simp add: dt_0226_def timedelta_def poe_0310_def poe_0315_def)

text \<open>
  Claim C10. The selected candidate is the earliest in input order among the covering
  candidates of maximal creation time: every covering candidate before it is strictly older,
  every covering candidate after it is no newer. The result is thereby fixed by the input list.
\<close>

theorem lastval_cover_first_of_latest:
  assumes "data = pre @ c # post"
    and "start_time c \<le> t0 \<and> t1 \<le> stop_time c"
    and "\<forall>x\<in>set pre. start_time x \<le> t0 \<and> t1 \<le> stop_time x \<longrightarrow> created_time x < created_time c"
    and "\<forall>x\<in>set post. start_time x \<le> t0 \<and> t1 \<le> stop_time x \<longrightarrow> created_time x \<le> created_time c"
  shows "lastval_cover t0 t1 data = Inr (filename c)"
proof -
  let ?P = "\<lambda>item. start_time item \<le> t0 \<and> stop_time item \<ge> t1"
  have "filter ?P data = filter ?P pre @ c # filter ?P post"
    using assms(1,2) by simp
  moreover have "\<forall>x\<in>set (filter ?P pre). created_time x < created_time c"
    using assms(3) by simp
  moreover have "\<forall>x\<in>set (filter ?P post). created_time x \<le> created_time c"
    using assms(4) by simp
  ultimately show ?thesis by (rule lastval_cover_candidates)
qed

theorem lastval_cover_first_of_latest_witness:
  "lastval_cover dt_0226 (dt_0226 + timedelta 0 0 1) [res_partial, poe_0310, poe_0315, poe_0315_b]
     = Inr (filename poe_0315)"
  using lastval_cover_first_of_latest [of "[res_partial, poe_0310, poe_0315, poe_0315_b]"
      "[res_partial, poe_0310]" poe_0315 "[poe_0315_b]" dt_0226 "dt_0226 + timedelta 0 0 1"]
  by (simp add: dt_0226_def timedelta_def res_partial_def poe_0310_def poe_0315_def poe_0315_b_def)

section \<open>The deduplicator and the precise-window filter\<close>

lemma split_last_example:
  "split_last (example_page @ filename poe_0224) = filename poe_0224"
  "split_last (example_page @ filename poe_0310) = filename poe_0310"
  "split_last (example_page @ filename poe_0315) = filename poe_0315"
  by (simp_all add: split_last_def example_page_def poe_0224_def poe_0310_def poe_0315_def)

lemma example_SO_simps:
  "example_SO (filename poe_0224) = poe_0224"
  "example_SO (filename poe_0310) = poe_0310"
  "example_SO (filename poe_0315) = poe_0315"
  "example_SO (filename poe_0315_b) = poe_0315_b"
  "example_SO (filename res_partial) = res_partial"
  "example_SO (filename res_0226) = res_0226"
  "example_SO (filename res_0227) = res_0227"
  by (simp_all add: example_SO_def example_orbits_def poe_0224_def poe_0310_def poe_0315_def
        poe_0315_b_def res_partial_def res_0226_def res_0227_def)

lemma example_times:
  "date_of (start_time poe_0224) = 737844" "date_of (start_time poe_0310) = 737845"
  "date_of (start_time poe_0315) = 737845"
  by (simp_all add: date_of_def poe_0224_def poe_0310_def poe_0315_def)

lemma example_dates:
  "date poe_0224 = 737844" "date poe_0310 = 737845" "date poe_0315 = 737845"
  by (simp_all add: date_def date_of_def poe_0224_def poe_0310_def poe_0315_def)

lemma date_of_minus_day: "date_of (t - timedelta 1 0 0) = date_of t - 1"
  by (simp add: date_of_def timedelta_def)

lemma date_of_plus_day: "date_of (t + timedelta 1 0 0) = date_of t + 1"
  by (simp add: date_of_def timedelta_def)

lemma dedupe_loop_filter:
  "dedupe_loop SO orb1 out links =
     out @ filter (\<lambda>link. date (SO (split_last link)) \<noteq> date orb1) links"
  by (induction links arbitrary: out) simp_all

lemma dedupe_links_Cons:
  "dedupe_links SO (link0 # rest) =
     Inr (link0 # filter (\<lambda>link. date (SO (split_last link)) \<noteq> date (SO (split_last link0))) rest)"
  by (simp add: dedupe_links_def dedupe_loop_filter)

lemma pick_precise_loop_filter:
  "pick_precise_loop SO sent_date out links =
     out @ filter (\<lambda>link. date_of (start_time (SO (split_last link))) = date_of sent_date - 1
                        \<and> date_of (stop_time (SO (split_last link))) = date_of sent_date + 1) links"
  by (induction links arbitrary: out) (simp_all add: Let_def date_of_minus_day date_of_plus_day)

lemma pick_precise_file_filter:
  "pick_precise_file SO links sent_date =
     filter (\<lambda>link. date_of (start_time (SO (split_last link))) = date_of sent_date - 1
                   \<and> date_of (stop_time (SO (split_last link))) = date_of sent_date + 1) links"
  by (simp add: pick_precise_file_def pick_precise_loop_filter)

text \<open>
  Claim C2, as amended. For a non-empty input the deduplicator keeps the first candidate and
  keeps each later candidate if and only if its validity-start date differs from the
  validity-start date of the first candidate; the order of the input is kept.
\<close>

theorem dedupe_links_first_date:
  "dedupe_links SO (link0 # rest) =
     Inr (link0 # filter (\<lambda>link. date_of (start_time (SO (split_last link)))
                                  \<noteq> date_of (start_time (SO (split_last link0)))) rest)"
  by (simp add: dedupe_links_Cons date_def)

theorem dedupe_links_first_date_witness:
  "dedupe_links example_SO [example_page @ filename poe_0224, example_page @ filename poe_0310, example_page @ filename poe_0315] = Inr [example_page @ filename poe_0224, example_page @ filename poe_0310, example_page @ filename poe_0315]"
  using dedupe_links_first_date [of example_SO "example_page @ filename poe_0224"
      "[example_page @ filename poe_0310, example_page @ filename poe_0315]"]
  by (simp add: split_last_example example_SO_simps example_times)

text \<open>
  Claim C2 as stated fails: after a first file of another day, two files of one day are both
  kept by the code, while a comparison with the candidate kept last drops the second.
\<close>

theorem dedupe_last_kept_counterexample:
  "dedupe_links example_SO [example_page @ filename poe_0224, example_page @ filename poe_0310, example_page @ filename poe_0315] = Inr [example_page @ filename poe_0224, example_page @ filename poe_0310, example_page @ filename poe_0315]
   \<and> dedupe_last_kept example_SO [example_page @ filename poe_0224, example_page @ filename poe_0310, example_page @ filename poe_0315]
       = Inr [example_page @ filename poe_0224, example_page @ filename poe_0310]"
  by (simp add: dedupe_links_def dedupe_last_kept_def split_last_example example_SO_simps
        example_dates)

text \<open>
  Claim C8. For a non-empty input the deduplicator returns a list no longer than the input,
  and a candidate whose validity-start date no other position of the input shares is in it.
\<close>

theorem dedupe_links_length_unique:
  assumes "links \<noteq> []"
  shows "\<exists>out. dedupe_links SO links = Inr out \<and> length out \<le> length links
           \<and> (\<forall>i<length links.
                 (\<forall>j<length links. j \<noteq> i \<longrightarrow>
                     date (SO (split_last (links ! j))) \<noteq> date (SO (split_last (links ! i))))
                 \<longrightarrow> links ! i \<in> set out)"
proof -
  obtain link0 rest where l: "links = link0 # rest" using assms by (cases links) auto
  let ?out = "link0 # filter (\<lambda>link. date (SO (split_last link)) \<noteq> date (SO (split_last link0))) rest"
  have r: "dedupe_links SO links = Inr ?out" unfolding l by (rule dedupe_links_Cons)
  have len: "length ?out \<le> length links" unfolding l by simp
  have uniq: "links ! i \<in> set ?out"
    if i: "i < length links"
      and u: "\<forall>j<length links. j \<noteq> i \<longrightarrow>
               date (SO (split_last (links ! j))) \<noteq> date (SO (split_last (links ! i)))" for i
  proof (cases i)
    case 0
    then show ?thesis unfolding l by simp
  next
    case (Suc k)
    have k: "k < length rest" using i Suc l by simp
    have "date (SO (split_last (links ! 0))) \<noteq> date (SO (split_last (links ! i)))"
      using u Suc l by (metis length_greater_0_conv assms nat.distinct(1))
    then have "date (SO (split_last (rest ! k))) \<noteq> date (SO (split_last link0))"
      using Suc l by simp
    then have "rest ! k \<in> set (filter (\<lambda>link. date (SO (split_last link)) \<noteq> date (SO (split_last link0))) rest)"
      using k by simp
    then show ?thesis unfolding l Suc by simp
  qed
  show ?thesis using r len uniq by blast
qed

theorem dedupe_links_length_unique_witness:
  "[example_page @ filename poe_0224, example_page @ filename poe_0310] \<noteq> []
   \<and> (\<exists>out. dedupe_links example_SO [example_page @ filename poe_0224, example_page @ filename poe_0310] = Inr out
         \<and> length out \<le> 2 \<and> example_page @ filename poe_0310 \<in> set out)"
proof -
  let ?links = "[example_page @ filename poe_0224, example_page @ filename poe_0310]"
  have ne: "?links \<noteq> []" by simp
  obtain out where o: "dedupe_links example_SO ?links = Inr out" "length out \<le> length ?links"
    and u: "\<forall>i<length ?links.
        (\<forall>j<length ?links. j \<noteq> i \<longrightarrow>
            date (example_SO (split_last (?links ! j))) \<noteq> date (example_SO (split_last (?links ! i))))
        \<longrightarrow> ?links ! i \<in> set out"
    using dedupe_links_length_unique [OF ne, of example_SO] by blast
  have "\<forall>j<length ?links. j \<noteq> 1 \<longrightarrow>
      date (example_SO (split_last (?links ! j))) \<noteq> date (example_SO (split_last (?links ! 1)))"
    by (simp add: less_Suc_eq split_last_example example_SO_simps example_dates)
  then have "?links ! 1 \<in> set out" using u
    by (metis One_nat_def length_Cons lessI list.size(3))
  then show ?thesis using o ne by auto
qed

text \<open>
  Claim C9. On the empty list the deduplicator fails with \<open>IndexError\<close>; on a non-empty list
  it returns a non-empty list whose first element is the first element of the input.
\<close>

theorem dedupe_links_empty_fails:
  "dedupe_links SO [] = Inl IndexError
   \<and> (links \<noteq> [] \<longrightarrow> (\<exists>out. dedupe_links SO links = Inr out \<and> out \<noteq> [] \<and> hd out = hd links))"
proof (cases links)
  case Nil then show ?thesis by (simp add: dedupe_links_def)
next
  case (Cons link0 rest)
  then show ?thesis by (simp add: dedupe_links_Cons) (simp add: dedupe_links_def)
qed

theorem dedupe_links_empty_fails_witness:
  "[example_page @ filename poe_0310, example_page @ filename poe_0315] \<noteq> []
   \<and> (\<exists>out. dedupe_links example_SO [example_page @ filename poe_0310, example_page @ filename poe_0315] = Inr out
         \<and> hd out = example_page @ filename poe_0310)"
  using dedupe_links_empty_fails [of example_SO "[example_page @ filename poe_0310, example_page @ filename poe_0315]"]
  by auto

section \<open>Listing and saving\<close>

lemma tiers_distinct: "RESTITUTED_ORBIT \<noteq> PRECISE_ORBIT"
  by (simp add: PRECISE_ORBIT_def RESTITUTED_ORBIT_def)

lemma eof_list_restituted:
  "eof_list ex start_dt mission RESTITUTED_ORBIT =
     (let url = BASE_URL RESTITUTED_ORBIT (strftime ex (start_dt + timedelta 0 4 0));
          response = requests_get ex url
      in if status_code response = 404 then Inl ValueError
         else if raises_for_status response then Inl HTTPError
         else (case mission_links url (eof_links ex (text_of response)) mission of
                 Inl e \<Rightarrow> Inl e
               | Inr links \<Rightarrow> if links = [] then Inl ValueError
                              else Inr (links, RESTITUTED_ORBIT)))"
  by (subst eof_list.simps) (simp add: tiers_distinct Let_def split: sum.splits)

lemma eof_list_precise:
  "eof_list ex start_dt mission PRECISE_ORBIT =
     (let url = BASE_URL PRECISE_ORBIT (strftime ex (start_dt + timedelta 20 12 0));
          response = requests_get ex url
      in if status_code response = 404 then eof_list ex start_dt mission RESTITUTED_ORBIT
         else if raises_for_status response then Inl HTTPError
         else (case mission_links url (eof_links ex (text_of response)) mission of
                 Inl e \<Rightarrow> Inl e
               | Inr links \<Rightarrow> if links = [] then eof_list ex start_dt mission RESTITUTED_ORBIT
                              else Inr (links, PRECISE_ORBIT)))"
  by (subst eof_list.simps) (simp add: Let_def split: sum.splits)

lemma eof_list_restituted_tag:
  "eof_list ex start_dt mission RESTITUTED_ORBIT = Inr (links, orbit_type) \<Longrightarrow>
     orbit_type = RESTITUTED_ORBIT \<and> links \<noteq> []"
  by (auto simp: eof_list_restituted Let_def split: if_splits sum.splits)

lemma eof_list_tag:
  "eof_list ex start_dt mission PRECISE_ORBIT = Inr (links, orbit_type) \<Longrightarrow>
     (orbit_type = PRECISE_ORBIT \<or> orbit_type = RESTITUTED_ORBIT) \<and> links \<noteq> []"
  by (auto simp: eof_list_precise Let_def split: if_splits sum.splits dest: eof_list_restituted_tag)

lemma download_and_write_links:
  assumes "eof_list ex dt mission PRECISE_ORBIT = Inr (links, orbit_type)"
  shows "\<exists>cur. dedupe_links SO links = Inr cur
          \<and> download_and_write ex SO files mission dt save_dir =
              save_links ex save_dir files []
                (if orbit_type = PRECISE_ORBIT then pick_precise_file SO cur dt else cur)"
proof -
  have "links \<noteq> []" using eof_list_tag [OF assms] by simp
  then obtain link0 rest where l: "links = link0 # rest" by (cases links) auto
  show ?thesis using assms unfolding l by (simp add: download_and_write_def dedupe_links_Cons)
qed

lemma stub_strftime:
  "strftime (stub_ext poe res) (dt_0226 + timedelta 20 12 0) = ''2021/03/18''"
  "strftime (stub_ext poe res) (dt_0226 + timedelta 0 4 0) = ''2021/02/26''"
  by (simp_all add: stub_ext_def date_of_def timedelta_def dt_0226_def)

lemma base_urls:
  "BASE_URL PRECISE_ORBIT ''2021/03/18'' = example_page"
  "BASE_URL RESTITUTED_ORBIT ''2021/02/26'' = res_page"
  "example_page \<noteq> res_page"
  by (simp_all add: BASE_URL_def PRECISE_ORBIT_def RESTITUTED_ORBIT_def example_page_def res_page_def)

lemma stub_get:
  "requests_get (stub_ext poe res) example_page = page PRECISE_ORBIT poe"
  "requests_get (stub_ext poe res) res_page = page RESTITUTED_ORBIT res"
  using base_urls(3) by (simp_all add: stub_ext_def base_urls(1,2))

lemma stub_links:
  "eof_links (stub_ext poe res) PRECISE_ORBIT = (case poe of Some l \<Rightarrow> l | None \<Rightarrow> [])"
  "eof_links (stub_ext poe res) RESTITUTED_ORBIT = (case res of Some l \<Rightarrow> l | None \<Rightarrow> [])"
  by (simp_all add: stub_ext_def tiers_distinct)

lemma page_simps:
  "status_code (page tag None) = 404"
  "status_code (page tag (Some l)) = 200"
  "text_of (page tag (Some l)) = tag"
  "\<not> raises_for_status (page tag (Some l))"
  by (simp_all add: page_def raises_for_status_def)

lemma startswith_examples:
  "startswith (filename poe_0224) ''S1A''" "startswith (filename poe_0310) ''S1A''"
  "startswith (filename poe_0315) ''S1A''" "\<not> startswith (filename poe_0315_b) ''S1A''"
  "startswith (filename res_0226) ''S1A''"
  by (simp_all add: startswith_def poe_0224_def poe_0310_def poe_0315_def poe_0315_b_def res_0226_def)

lemma eof_list_ext_precise:
  "eof_list ext_precise dt_0226 (Some ''S1A'') PRECISE_ORBIT =
     Inr ([example_page @ filename poe_0224, example_page @ filename poe_0310,
           example_page @ filename poe_0315], PRECISE_ORBIT)"
  by (simp add: eof_list_precise ext_precise_def stub_strftime base_urls stub_get stub_links
        page_simps mission_links_def startswith_examples)

lemma eof_list_ext_restituted:
  "eof_list ext_restituted dt_0226 (Some ''S1A'') PRECISE_ORBIT =
     Inr ([res_page @ filename res_0226], RESTITUTED_ORBIT)"
  by (simp add: eof_list_precise eof_list_restituted ext_restituted_def stub_strftime base_urls
        stub_get stub_links page_simps mission_links_def startswith_examples)

lemma eof_list_ext_nothing:
  "eof_list ext_nothing dt_0226 (Some ''S1A'') PRECISE_ORBIT = Inl ValueError"
  by (simp add: eof_list_precise eof_list_restituted ext_nothing_def stub_strftime base_urls
        stub_get page_simps)

lemma split_last_res:
  "split_last (res_page @ filename res_0226) = filename res_0226"
  by (simp add: split_last_def res_page_def res_0226_def)

lemma example_window_dates:
  "date_of dt_0226 = 737846"
  "date_of (stop_time poe_0224) = 737846" "date_of (stop_time poe_0310) = 737847"
  "date_of (stop_time poe_0315) = 737847"
  "date_of (start_time res_0226) = 737845" "date_of (stop_time res_0226) = 737846"
  by (simp_all add: date_of_def dt_0226_def poe_0224_def poe_0310_def poe_0315_def res_0226_def)

text \<open>
  Claim C4. The precise-window filter keeps a link exactly when it is in its input, the
  validity start of its file falls on the day before the target date and the validity stop on
  the day after. \<open>_download_and_write\<close> applies it to the deduplicated links when the listing
  came from the precise tier, and leaves the deduplicated links as they are when it came from
  the restituted tier.
\<close>

theorem pick_precise_file_straddling:
  "(link \<in> set (pick_precise_file SO links dt) \<longleftrightarrow>
      link \<in> set links
      \<and> date_of (start_time (SO (split_last link))) = date_of dt - 1
      \<and> date_of (stop_time (SO (split_last link))) = date_of dt + 1)
   \<and> (eof_list ex dt mission PRECISE_ORBIT = Inr (listed, PRECISE_ORBIT) \<longrightarrow>
        (\<exists>cur. dedupe_links SO listed = Inr cur
           \<and> download_and_write ex SO files mission dt save_dir =
               save_links ex save_dir files [] (pick_precise_file SO cur dt)))
   \<and> (eof_list ex dt mission PRECISE_ORBIT = Inr (listed, RESTITUTED_ORBIT) \<longrightarrow>
        (\<exists>cur. dedupe_links SO listed = Inr cur
           \<and> download_and_write ex SO files mission dt save_dir =
               save_links ex save_dir files [] cur))"
proof (intro conjI impI)
  show "link \<in> set (pick_precise_file SO links dt) \<longleftrightarrow>
      link \<in> set links
      \<and> date_of (start_time (SO (split_last link))) = date_of dt - 1
      \<and> date_of (stop_time (SO (split_last link))) = date_of dt + 1"
    by (simp add: pick_precise_file_filter)
next
  assume "eof_list ex dt mission PRECISE_ORBIT = Inr (listed, PRECISE_ORBIT)"
  from download_and_write_links [OF this, of SO files save_dir]
  show "\<exists>cur. dedupe_links SO listed = Inr cur
           \<and> download_and_write ex SO files mission dt save_dir =
               save_links ex save_dir files [] (pick_precise_file SO cur dt)"
    by simp
next
  assume "eof_list ex dt mission PRECISE_ORBIT = Inr (listed, RESTITUTED_ORBIT)"
  from download_and_write_links [OF this, of SO files save_dir]
  show "\<exists>cur. dedupe_links SO listed = Inr cur
           \<and> download_and_write ex SO files mission dt save_dir =
               save_links ex save_dir files [] cur"
    by (simp add: tiers_distinct)
qed

theorem pick_precise_file_straddling_witness:
  "example_page @ filename poe_0310
      \<in> set (pick_precise_file example_SO
               [example_page @ filename poe_0224, example_page @ filename poe_0310] dt_0226)
   \<and> example_page @ filename poe_0224
      \<notin> set (pick_precise_file example_SO
               [example_page @ filename poe_0224, example_page @ filename poe_0310] dt_0226)
   \<and> res_page @ filename res_0226
      \<notin> set (pick_precise_file example_SO [res_page @ filename res_0226] dt_0226)
   \<and> eof_list ext_restituted dt_0226 (Some ''S1A'') PRECISE_ORBIT
       = Inr ([res_page @ filename res_0226], RESTITUTED_ORBIT)
   \<and> download_and_write ext_restituted example_SO Map.empty (Some ''S1A'') dt_0226 ''.''
       = save_links ext_restituted ''.'' Map.empty [] [res_page @ filename res_0226]"
proof -
  let ?two = "[example_page @ filename poe_0224, example_page @ filename poe_0310]"
  note t = pick_precise_file_straddling [where SO = example_SO and dt = dt_0226
      and ex = ext_restituted and mission = "Some ''S1A''"
      and listed = "[res_page @ filename res_0226]" and files = Map.empty and save_dir = "''.''"]
  have a: "example_page @ filename poe_0310 \<in> set (pick_precise_file example_SO ?two dt_0226)"
    using t [where link = "example_page @ filename poe_0310" and links = ?two]
    by (simp add: split_last_example example_SO_simps example_times example_window_dates)
  have b: "example_page @ filename poe_0224 \<notin> set (pick_precise_file example_SO ?two dt_0226)"
    using t [where link = "example_page @ filename poe_0224" and links = ?two]
    by (simp add: split_last_example example_SO_simps example_times example_window_dates)
  have c: "res_page @ filename res_0226
      \<notin> set (pick_precise_file example_SO [res_page @ filename res_0226] dt_0226)"
    using t [where link = "res_page @ filename res_0226" and links = "[res_page @ filename res_0226]"]
    by (simp add: split_last_res example_SO_simps example_window_dates)
  have d: "download_and_write ext_restituted example_SO Map.empty (Some ''S1A'') dt_0226 ''.''
       = save_links ext_restituted ''.'' Map.empty [] [res_page @ filename res_0226]"
    using t [where link = "[]" and links = "[]"] eof_list_ext_restituted
    by (simp add: dedupe_links_Cons)
  show ?thesis using a b c d eof_list_ext_restituted by simp
qed

end
